theory Spec2Isabelle
  imports Main "HOL-Library.AList"
begin

section \<open>JavaScript values\<close>

text \<open>
  The library (src/src/index.ts) works on untyped JavaScript values: configurations are
  plain objects, transform chains are arrays, callbacks are functions.  A value is
  modelled as a tree.  An object is the list of its own enumerable properties in
  insertion order, each key at most once; \<open>for (i in o)\<close> walks that list.  A function is
  a reference \<open>VFun n\<close>, interpreted by the environment (below).  Numbers are integers:
  the library never calculates with them, it only tests them for truthiness and hands
  them on.  \<open>VBigInt\<close> is a \<open>bigint\<close> such as \<open>10n\<close>.  Strings are lists of 8-bit
  characters.

  Not modelled: the properties that an object inherits from \<open>Object.prototype\<close>
  (\<open>objectPrototypeKeys\<close> below).  In the code \<open>key in out\<close> also holds for these names, and
  an assignment to \<open>out['__proto__']\<close> goes to the setter of \<open>Object.prototype\<close>: it
  changes the prototype of \<open>out\<close>, or does nothing, and adds no entry.  In the embedding
  \<open>key in out\<close> is the own-key test and every key is an ordinary one, so the embedding and
  the code part on objects that have one of these names as a key; \<open>__proto__\<close> is the name
  on which results differ.  Also not modelled: the order in which \<open>for-in\<close> puts
  integer-like keys before the others, holes in arrays, and object identity.
\<close>

datatype jsval =
    VUndefined
  | VNull
  | VBool bool
  | VNum int
  | VBigInt int
  | VStr string
  | VFun nat
  | VArr "jsval list"
  | VObj "(string \<times> jsval) list"

type_synonym props = "(string \<times> jsval) list"

fun truthy :: "jsval \<Rightarrow> bool" where
  "truthy VUndefined = False"
| "truthy VNull = False"
| "truthy (VBool b) = b"
| "truthy (VNum n) = (n \<noteq> 0)"
| "truthy (VBigInt n) = (n \<noteq> 0)"
| "truthy (VStr s) = (s \<noteq> [])"
| "truthy (VFun _) = True"
| "truthy (VArr _) = True"
| "truthy (VObj _) = True"

text \<open>\<open>a || b\<close>\<close>

definition jsOr :: "jsval \<Rightarrow> jsval \<Rightarrow> jsval" where
  "jsOr a b = (if truthy a then a else b)"

text \<open>\<open>typeof v === 'object' && v !== null && !Array.isArray(v)\<close>\<close>

fun isPlainObject :: "jsval \<Rightarrow> bool" where
  "isPlainObject (VObj _) = True"
| "isPlainObject _ = False"

text \<open>\<open>typeof v === 'object'\<close> for a truthy \<open>v\<close>\<close>

fun isObject :: "jsval \<Rightarrow> bool" where
  "isObject (VObj _) = True"
| "isObject (VArr _) = True"
| "isObject _ = False"

text \<open>\<open>typeof v === 'string'\<close>\<close>

fun isString :: "jsval \<Rightarrow> bool" where
  "isString (VStr _) = True"
| "isString _ = False"

text \<open>\<open>typeof v === 'function'\<close>\<close>

fun isFunction :: "jsval \<Rightarrow> bool" where
  "isFunction (VFun _) = True"
| "isFunction _ = False"

text \<open>\<open>out[key]\<close> and \<open>key in out\<close> on the property list of an object.\<close>

definition getOwn :: "props \<Rightarrow> string \<Rightarrow> jsval" where
  "getOwn out key = (case map_of out key of Some v \<Rightarrow> v | None \<Rightarrow> VUndefined)"

definition hasKey :: "string \<Rightarrow> props \<Rightarrow> bool" where
  "hasKey key out = (key \<in> fst ` set out)"

text \<open>\<open>v.k\<close> (and \<open>v?.k\<close>): the property of an object, \<open>undefined\<close> on anything else.\<close>

fun getProp :: "jsval \<Rightarrow> string \<Rightarrow> jsval" where
  "getProp (VObj kvs) k = getOwn kvs k"
| "getProp _ k = VUndefined"

text \<open>
  \<open>out[key] = v\<close> is \<open>AList.update key v out\<close>: the value is replaced in place when the
  key exists and the entry is appended otherwise.
\<close>

subsection \<open>Strings\<close>

text \<open>
  A character is a UTF-16 code unit below 256 (the Latin-1 range).  There the upper-case
  letters are A-Z (65-90) and U+00C0-U+00DE without the sign U+00D7 (192-222 without
  215), and \<open>String.prototype.toLowerCase\<close> adds 32 to each of them and changes nothing
  else.
\<close>

definition isUpperCase :: "char \<Rightarrow> bool" where
  "isUpperCase c =
     (let n = (of_char c :: nat)
      in (65 \<le> n \<and> n \<le> 90) \<or> (192 \<le> n \<and> n \<le> 222 \<and> n \<noteq> 215))"

definition lowerChar :: "char \<Rightarrow> char" where
  "lowerChar c = (if isUpperCase c then char_of (of_char c + (32 :: nat)) else c)"

definition upperChar :: "char \<Rightarrow> char" where
  "upperChar c = (let n = (of_char c :: nat) in if 97 \<le> n \<and> n \<le> 122 then char_of (n - 32) else c)"

text \<open>
  \<open>String.prototype.toLowerCase\<close>, and \<open>toUpperCase\<close> on the ASCII letters (the method
  names of \<open>HttpMethod\<close> are ASCII).
\<close>

definition toLowerCase :: "string \<Rightarrow> string" where
  "toLowerCase s = map lowerChar s"

definition toUpperCase :: "string \<Rightarrow> string" where
  "toUpperCase s = map upperChar s"

definition digit_char :: "nat \<Rightarrow> char" where
  "digit_char n = char_of (48 + n mod 10)"

fun string_of_nat :: "nat \<Rightarrow> string" where
  "string_of_nat n =
     (if n < 10 then [digit_char n] else string_of_nat (n div 10) @ [digit_char n])"

declare string_of_nat.simps [simp del]

text \<open>The index keys \<open>"0"\<close>, \<open>"1"\<close>, ... that \<open>for-in\<close> gives for an array or a string.\<close>

definition index_keys :: "'a list \<Rightarrow> (string \<times> 'a) list" where
  "index_keys xs = zip (map string_of_nat [0..<length xs]) xs"

text \<open>The pairs \<open>(i, v[i])\<close> that \<open>for (i in v)\<close> visits.\<close>

fun forIn :: "jsval \<Rightarrow> props" where
  "forIn (VObj kvs) = kvs"
| "forIn (VArr xs) = index_keys xs"
| "forIn (VStr s) = index_keys (map (\<lambda>c. VStr [c]) s)"
| "forIn _ = []"

text \<open>The property names of \<open>Object.prototype\<close>.\<close>

definition objectPrototypeKeys :: "string list" where
  "objectPrototypeKeys =
     [''constructor'', ''__defineGetter__'', ''__defineSetter__'', ''hasOwnProperty'',
      ''__lookupGetter__'', ''__lookupSetter__'', ''isPrototypeOf'', ''propertyIsEnumerable'',
      ''toString'', ''valueOf'', ''__proto__'', ''toLocaleString'']"

text \<open>\<open>xs.concat(v)\<close> spreads an array argument and appends any other value.\<close>

fun concatArg :: "jsval \<Rightarrow> jsval list" where
  "concatArg (VArr ys) = ys"
| "concatArg v = [v]"

section \<open>deepMerge (index.ts, lines 212-238)\<close>

function deepMerge :: "jsval \<Rightarrow> jsval \<Rightarrow> bool \<Rightarrow> jsval" where
  "deepMerge opts overrides lowerCase =
     (case opts of
        VArr xs \<Rightarrow> VArr (xs @ concatArg overrides)
      | _ \<Rightarrow>
        VObj (fold (\<lambda>(i, value) out.
                 let key = (if lowerCase then toLowerCase i else i)
                 in AList.update key
                      (if hasKey key out \<and> isPlainObject value
                       then deepMerge (getOwn out key) value (key = ''headers'')
                       else value) out)
               (forIn overrides)
               (fold (\<lambda>(i, v) out. AList.update (if lowerCase then toLowerCase i else i) v out)
                  (forIn opts) [])))"
  by pat_completeness auto
termination
proof -
  have entry: "size v < Suc (size_list (size_prod (\<lambda>_. 0) size) kvs)"
    if "(i, v) \<in> set kvs" for i :: string and v :: jsval and kvs
    using that by (induction kvs) auto
  have elem: "size v < Suc (size_list size xs)" if "v \<in> set xs" for v :: jsval and xs
    using that by (induction xs) auto
  have smaller: "size v < size ov"
    if "(i, v) \<in> set (forIn ov)" and "isPlainObject v" for i v ov
    using that
    by (cases ov) (auto simp: index_keys_def entry elem dest!: set_zip_rightD)
  show ?thesis
    by (relation "measure (\<lambda>(opts, overrides, lowerCase). size overrides)")
       (auto dest: smaller)
qed

declare deepMerge.simps [simp del]

text \<open>
  The key of both loops, \<^verbatim>\<open>lowerCase ? i.toLowerCase() : i\<close>, and the bodies of the two
  loops (lines 224-227 and 229-235), by name.
\<close>

definition keyFor :: "bool \<Rightarrow> string \<Rightarrow> string" where
  "keyFor lowerCase i = (if lowerCase then toLowerCase i else i)"

definition copyStep :: "bool \<Rightarrow> string \<times> jsval \<Rightarrow> props \<Rightarrow> props" where
  "copyStep lowerCase = (\<lambda>(i, v) out. AList.update (keyFor lowerCase i) v out)"

definition overrideStep :: "bool \<Rightarrow> string \<times> jsval \<Rightarrow> props \<Rightarrow> props" where
  "overrideStep lowerCase = (\<lambda>(i, value) out.
     let key = keyFor lowerCase i
     in AList.update key
          (if hasKey key out \<and> isPlainObject value
           then deepMerge (getOwn out key) value (key = ''headers'')
           else value) out)"

text \<open>The entry that a loop step writes for the pair \<open>(i, v)\<close>.\<close>

definition foldKey :: "bool \<Rightarrow> string \<times> jsval \<Rightarrow> string \<times> jsval" where
  "foldKey lowerCase = (\<lambda>(i, v). (keyFor lowerCase i, v))"

section \<open>The request pipeline (index.ts, lines 78-207)\<close>

subsection \<open>Environment, transport and results\<close>

text \<open>
  What a call hands to the transport: \<open>fetchFunc(url, {method, body, headers, credentials})\<close>
  (the field \<open>method\<close> is \<open>httpMethod\<close> here).
\<close>

record request =
  url :: string
  httpMethod :: string
  body :: jsval
  headers :: jsval
  credentials :: jsval

text \<open>
  The promise returned by a decode method \<open>res.text()\<close>, \<open>res.json()\<close>, ... of the raw
  response, by what finally happens to it.  \<open>NotCallable\<close>: the raw response has no such
  method.
\<close>

datatype decode_result =
    NotCallable
  | DecodeThrows jsval
  | DecodePending
  | DecodeRejects jsval
  | DecodeFulfils jsval

text \<open>
  The raw response of the transport: its enumerable properties (\<open>status\<close>, \<open>ok\<close>, \<open>body\<close>,
  ..., function-valued ones included) and its decode methods by name.
\<close>

record rawResponse =
  rawProps :: props
  decode :: "string \<Rightarrow> decode_result"

text \<open>A call of the transport: it throws, or returns a promise that stays pending, rejects or fulfils.\<close>

datatype fetch_result =
    FetchThrows jsval
  | FetchPending
  | FetchRejects jsval
  | FetchFulfils rawResponse

text \<open>
  Everything the library takes from its surroundings.  \<open>callFn n args\<close> is the call of
  the function \<open>VFun n\<close> (a \<open>transformRequest\<close> entry, \<open>paramsSerializer\<close>,
  \<open>validateStatus\<close>): \<open>Inl e\<close> when it throws \<open>e\<close>, \<open>Inr r\<close> when it returns \<open>r\<close>.
  Callbacks are taken to be pure: they do not change the objects they receive.
  \<open>transport n\<close> is \<open>VFun n\<close> used as the transport.  \<open>ambientFetch\<close> is the global
  \<open>fetch\<close>, if there is one.  \<open>jsonStringify\<close> is \<open>JSON.stringify\<close>, which throws on a
  cyclic value or when a \<open>toJSON\<close> throws; \<open>jsonParse\<close> is \<open>JSON.parse\<close>, \<open>None\<close> when it
  throws.  \<open>hasDocument\<close> is \<open>typeof document !== 'undefined'\<close>, and \<open>cookieToken name\<close>
  is the body of the XSRF block: the match of \<open>(^|; )name=([^;]*)\<close> against
  \<open>document.cookie\<close>, its second group URL-decoded; \<open>Inl e\<close> when any of this throws,
  \<open>Inr None\<close> when there is no match.  \<open>urlSearchParams p\<close> is
  \<open>new URLSearchParams(p).toString()\<close>.
\<close>

record env =
  callFn :: "nat \<Rightarrow> jsval list \<Rightarrow> jsval + jsval"
  transport :: "nat \<Rightarrow> request \<Rightarrow> fetch_result"
  ambientFetch :: "nat option"
  jsonStringify :: "jsval \<Rightarrow> jsval + jsval"
  jsonParse :: "jsval \<Rightarrow> jsval option"
  hasDocument :: bool
  cookieToken :: "string \<Rightarrow> jsval + string option"
  urlSearchParams :: "jsval \<Rightarrow> jsval + string"

text \<open>
  The result of a call of the instance.  \<open>Throws e\<close>: the call itself throws \<open>e\<close> and
  returns no promise.  \<open>Pending\<close>, \<open>Resolves r\<close>, \<open>Rejects e\<close>: the call returns a promise,
  which never settles, fulfils with \<open>r\<close>, or rejects with \<open>e\<close>.  \<open>IllTyped\<close>: an argument,
  an option or the raw response violates the declared TypeScript types (\<open>Options\<close>, the
  call signatures, \<open>typeof window.fetch\<close>) at the place where the value is used; in
  JavaScript such a call throws a \<open>TypeError\<close> or converts the value silently, and the
  embedding says nothing about it.
\<close>

datatype outcome =
    IllTyped
  | Throws jsval
  | Pending
  | Resolves jsval
  | Rejects jsval

text \<open>A step of the pipeline ends the call (\<open>Inl\<close>) or goes on with a value (\<open>Inr\<close>).\<close>

definition andThen :: "outcome + 'a \<Rightarrow> ('a \<Rightarrow> outcome + 'b) \<Rightarrow> outcome + 'b" where
  "andThen r f = (case r of Inl out \<Rightarrow> Inl out | Inr x \<Rightarrow> f x)"

definition asString :: "jsval \<Rightarrow> outcome + string" where
  "asString v = (case v of VStr s \<Rightarrow> Inr s | _ \<Rightarrow> Inl IllTyped)"

definition referenceError :: jsval where
  "referenceError = VObj [(''name'', VStr ''ReferenceError'')]"

subsection \<open>Steps before the transport\<close>

text \<open>
  Lines 88-94: the URL and the configuration of the call.
  \<^verbatim>\<open>if (typeof urlOrConfig !== 'string') { config = urlOrConfig; url = config?.url || ''; }
  else { url = urlOrConfig; }\<close>
\<close>

definition normalizeArgs :: "jsval \<Rightarrow> jsval \<Rightarrow> jsval \<times> jsval" where
  "normalizeArgs urlOrConfig config =
     (if \<not> isString urlOrConfig
      then (jsOr (getProp urlOrConfig ''url'') (VStr []), urlOrConfig)
      else (urlOrConfig, config))"

text \<open>Line 102: \<^verbatim>\<open>data = data || options.data\<close>.\<close>

definition initialData :: "jsval \<Rightarrow> jsval \<Rightarrow> jsval" where
  "initialData data options = jsOr data (getProp options ''data'')"

text \<open>
  Lines 104-106: \<^verbatim>\<open>(options.transformRequest || []).forEach((f) => { data = f(data, options.headers) || data; })\<close>.
\<close>

fun forEachTransform :: "env \<Rightarrow> jsval list \<Rightarrow> jsval \<Rightarrow> jsval \<Rightarrow> outcome + jsval" where
  "forEachTransform E [] hdrs data = Inr data"
| "forEachTransform E (f # fs) hdrs data =
     (case f of
        VFun n \<Rightarrow>
          (case callFn E n [data, hdrs] of
             Inl e \<Rightarrow> Inl (Throws e)
           | Inr r \<Rightarrow> forEachTransform E fs hdrs (jsOr r data))
      | _ \<Rightarrow> Inl IllTyped)"

definition transformBody :: "env \<Rightarrow> jsval \<Rightarrow> jsval \<Rightarrow> outcome + jsval" where
  "transformBody E options data =
     (case jsOr (getProp options ''transformRequest'') (VArr []) of
        VArr fs \<Rightarrow> forEachTransform E fs (getProp options ''headers'') data
      | _ \<Rightarrow> Inl IllTyped)"

text \<open>Lines 108-110: \<^verbatim>\<open>if (options.auth) { customHeaders.authorization = options.auth; }\<close>.\<close>

definition authHeader :: "jsval \<Rightarrow> props \<Rightarrow> props" where
  "authHeader options customHeaders =
     (if truthy (getProp options ''auth'')
      then AList.update ''authorization'' (getProp options ''auth'') customHeaders
      else customHeaders)"

text \<open>
  Lines 112-115: the guard of the JSON step and the step itself.
  \<^verbatim>\<open>if (data && typeof data === 'object' && typeof data.append !== 'function'
      && typeof data.text !== 'function') {
    data = JSON.stringify(data); customHeaders['content-type'] = 'application/json'; }\<close>
\<close>

definition needsJson :: "jsval \<Rightarrow> bool" where
  "needsJson data =
     (truthy data \<and> isObject data \<and> \<not> isFunction (getProp data ''append'')
      \<and> \<not> isFunction (getProp data ''text''))"

definition jsonEncode :: "env \<Rightarrow> jsval \<Rightarrow> props \<Rightarrow> outcome + (jsval \<times> props)" where
  "jsonEncode E data customHeaders =
     (if needsJson data
      then (case jsonStringify E data of
              Inl e \<Rightarrow> Inl (Throws e)
            | Inr s \<Rightarrow> Inr (s, AList.update ''content-type'' (VStr ''application/json'') customHeaders))
      else Inr (data, customHeaders))"

text \<open>
  Lines 117-126: the XSRF token.  Whatever is thrown inside the \<open>try\<close> is ignored.
\<close>

definition xsrfInject :: "env \<Rightarrow> jsval \<Rightarrow> props \<Rightarrow> outcome + props" where
  "xsrfInject E options customHeaders =
     (if truthy (getProp options ''xsrfCookieName'') \<and> truthy (getProp options ''xsrfHeaderName'')
         \<and> hasDocument E
      then andThen (asString (getProp options ''xsrfCookieName'')) (\<lambda>cookieName.
           andThen (asString (getProp options ''xsrfHeaderName'')) (\<lambda>headerName.
             (case cookieToken E cookieName of
                Inl e \<Rightarrow> Inr customHeaders
              | Inr None \<Rightarrow> Inr customHeaders
              | Inr (Some token) \<Rightarrow> Inr (AList.update headerName (VStr token) customHeaders))))
      else Inr customHeaders)"

text \<open>
  Lines 128-130: \<^verbatim>\<open>url = url.replace(/^(?!.*\/\/)\/?/, options.baseURL + '/')\<close>.

  The pattern can match at the start of the string only.  The lookahead
  \<open>(?!.*\/\/)\<close> fails when \<open>.*\<close> can reach a \<open>//\<close>, and \<open>.\<close> does not match a line
  terminator: so it fails exactly when \<open>//\<close> occurs before the first line terminator.
  When it fails there is no match and \<open>replace\<close> returns the string as it is.
  Otherwise \<open>\/?\<close> takes one leading slash if there is one, and the match is replaced.
  The second argument of \<open>replace\<close> is a replacement pattern: \<open>$$\<close> stands for \<open>$\<close>,
  \<open>$&\<close> for the matched text, \<open>$`\<close> for the text before the match (empty here), \<open>$'\<close>
  for the text after it; the pattern has no capture group, so \<open>$1\<close>, ... stay as they
  are.  The line terminators are LF and CR (U+2028 and U+2029 are no 8-bit characters).
\<close>

definition isLineTerminator :: "char \<Rightarrow> bool" where
  "isLineTerminator c = (c = CHR 0x0A \<or> c = CHR 0x0D)"

fun containsDoubleSlash :: "string \<Rightarrow> bool" where
  "containsDoubleSlash (a # b # cs) =
     ((a = CHR ''/'' \<and> b = CHR ''/'') \<or> containsDoubleSlash (b # cs))"
| "containsDoubleSlash _ = False"

definition lookaheadFails :: "string \<Rightarrow> bool" where
  "lookaheadFails u = containsDoubleSlash (takeWhile (\<lambda>c. \<not> isLineTerminator c) u)"

fun expandReplacement :: "string \<Rightarrow> string \<Rightarrow> string \<Rightarrow> string" where
  "expandReplacement (c # d # ds) matched after =
     (if c = CHR ''$'' \<and> d = CHR ''$'' then CHR ''$'' # expandReplacement ds matched after
      else if c = CHR ''$'' \<and> d = CHR ''&'' then matched @ expandReplacement ds matched after
      else if c = CHR ''$'' \<and> d = CHR 0x60 then expandReplacement ds matched after
      else if c = CHR ''$'' \<and> d = CHR 0x27 then after @ expandReplacement ds matched after
      else c # expandReplacement (d # ds) matched after)"
| "expandReplacement cs matched after = cs"


definition replaceBase :: "string \<Rightarrow> string \<Rightarrow> string" where
  "replaceBase u replacement =
     (if lookaheadFails u then u
      else (case u of
              c # rest \<Rightarrow>
                (if c = CHR ''/'' then expandReplacement replacement ''/'' rest @ rest
                 else expandReplacement replacement [] u @ u)
            | [] \<Rightarrow> expandReplacement replacement [] []))"

definition composeBaseURL :: "jsval \<Rightarrow> string \<Rightarrow> outcome + string" where
  "composeBaseURL options u =
     (if truthy (getProp options ''baseURL'')
      then andThen (asString (getProp options ''baseURL'')) (\<lambda>base.
             Inr (replaceBase u (base @ ''/'')))
      else Inr u)"

text \<open>
  Lines 132-136:
  \<^verbatim>\<open>url += (~url.indexOf('?') ? '&' : '?') +
    (options.paramsSerializer ? options.paramsSerializer(options.params)
                              : new URLSearchParams(options.params).toString())\<close>
\<close>

definition serializeParams :: "env \<Rightarrow> jsval \<Rightarrow> outcome + string" where
  "serializeParams E options =
     (if truthy (getProp options ''paramsSerializer'')
      then (case getProp options ''paramsSerializer'' of
              VFun n \<Rightarrow>
                (case callFn E n [getProp options ''params''] of
                   Inl e \<Rightarrow> Inl (Throws e)
                 | Inr r \<Rightarrow> asString r)
            | _ \<Rightarrow> Inl IllTyped)
      else (case urlSearchParams E (getProp options ''params'') of
              Inl e \<Rightarrow> Inl (Throws e)
            | Inr s \<Rightarrow> Inr s))"

definition composeQuery :: "env \<Rightarrow> jsval \<Rightarrow> string \<Rightarrow> outcome + string" where
  "composeQuery E options u =
     (if truthy (getProp options ''params'')
      then andThen (serializeParams E options) (\<lambda>s.
             Inr (u @ (if CHR ''?'' \<in> set u then ''&'' else ''?'') @ s))
      else Inr u)"

text \<open>Line 138: \<^verbatim>\<open>const fetchFunc = options.fetch || fetch\<close>.\<close>

definition fetchFunc :: "env \<Rightarrow> jsval \<Rightarrow> outcome + nat" where
  "fetchFunc E options =
     (if truthy (getProp options ''fetch'')
      then (case getProp options ''fetch'' of VFun n \<Rightarrow> Inr n | _ \<Rightarrow> Inl IllTyped)
      else (case ambientFetch E of Some n \<Rightarrow> Inr n | None \<Rightarrow> Inl (Throws referenceError)))"

text \<open>
  Lines 140-145: the request descriptor.  The fifth parameter \<open>_undefined\<close> has type
  \<open>never\<close>, so \<open>credentials\<close> is \<open>undefined\<close> unless \<open>withCredentials\<close> is set.
\<close>

definition buildRequest :: "jsval \<Rightarrow> jsval \<Rightarrow> string \<Rightarrow> jsval \<Rightarrow> props \<Rightarrow> outcome + request" where
  "buildRequest options method_arg u data customHeaders =
     andThen (asString (jsOr method_arg (jsOr (getProp options ''method'') (VStr ''get'')))) (\<lambda>m.
       Inr \<lparr> url = u,
             httpMethod = toUpperCase m,
             body = data,
             headers = deepMerge (jsOr (getProp options ''headers'') (VObj [])) (VObj customHeaders) True,
             credentials = (if truthy (getProp options ''withCredentials'') then VStr ''include''
                            else VUndefined) \<rparr>)"

subsection \<open>Steps after the transport\<close>

text \<open>
  Lines 146-150: every property of the raw response that is not a function is copied
  onto the response, which starts as \<open>{ config: config || {} }\<close>.
\<close>

definition copyRaw :: "rawResponse \<Rightarrow> props \<Rightarrow> props" where
  "copyRaw res response =
     fold (\<lambda>(i, v) r. if isFunction v then r else AList.update i v r) (rawProps res) response"

text \<open>
  Lines 171-174:
  \<^verbatim>\<open>const ok = options.validateStatus ? options.validateStatus(res.status) : res.ok;
  return ok ? response : Promise.reject(response);\<close>
  A \<open>validateStatus\<close> that throws rejects the promise with what it threw.
\<close>

definition statusOk :: "env \<Rightarrow> jsval \<Rightarrow> rawResponse \<Rightarrow> outcome + bool" where
  "statusOk E options res =
     (if truthy (getProp options ''validateStatus'')
      then (case getProp options ''validateStatus'' of
              VFun n \<Rightarrow>
                (case callFn E n [getOwn (rawProps res) ''status''] of
                   Inl e \<Rightarrow> Inl (Rejects e)
                 | Inr r \<Rightarrow> Inr (truthy r))
            | _ \<Rightarrow> Inl IllTyped)
      else Inr (truthy (getOwn (rawProps res) ''ok'')))"

definition settle :: "env \<Rightarrow> jsval \<Rightarrow> rawResponse \<Rightarrow> props \<Rightarrow> outcome" where
  "settle E options res response =
     (case statusOk E options res of
        Inl out \<Rightarrow> out
      | Inr ok \<Rightarrow> if ok then Resolves (VObj response) else Rejects (VObj response))"

text \<open>
  Lines 159-167: the decoded value becomes \<open>data\<close>, replaced by its JSON parse when that
  succeeds.
\<close>

definition storeData :: "env \<Rightarrow> jsval \<Rightarrow> props \<Rightarrow> props" where
  "storeData E d response =
     (case jsonParse E d of
        Some v \<Rightarrow> AList.update ''data'' v (AList.update ''data'' d response)
      | None \<Rightarrow> AList.update ''data'' d response)"

text \<open>
  Lines 145-175, the callback given to \<open>then\<close>.  A decode method that throws makes the
  callback throw, which rejects the promise of the call; a decode promise that rejects
  is caught (line 168) and the call goes on to the status check.
\<close>

definition handleResponse :: "env \<Rightarrow> jsval \<Rightarrow> jsval \<Rightarrow> rawResponse \<Rightarrow> outcome" where
  "handleResponse E options config res =
     (let response = copyRaw res [(''config'', jsOr config (VObj []))]
      in if getProp options ''responseType'' = VStr ''stream''
         then Resolves (VObj (AList.update ''data'' (getOwn (rawProps res) ''body'') response))
         else (case jsOr (getProp options ''responseType'') (VStr ''text'') of
                 VStr responseType \<Rightarrow>
                   (case decode res responseType of
                      NotCallable \<Rightarrow> IllTyped
                    | DecodeThrows e \<Rightarrow> Rejects e
                    | DecodePending \<Rightarrow> Pending
                    | DecodeRejects e \<Rightarrow> settle E options res response
                    | DecodeFulfils d \<Rightarrow> settle E options res (storeData E d response))
               | _ \<Rightarrow> IllTyped))"

subsection \<open>The call\<close>

text \<open>
  Everything up to the call of the transport: the transport to use, the request, the
  resolved options and the configuration of the call.
\<close>

definition prepare ::
  "env \<Rightarrow> jsval \<Rightarrow> jsval \<Rightarrow> jsval \<Rightarrow> jsval \<Rightarrow> jsval \<Rightarrow> outcome + (nat \<times> request \<times> jsval \<times> jsval)" where
  "prepare E defaults urlOrConfig config0 method_arg data_arg =
     (let (url_v, config) = normalizeArgs urlOrConfig config0;
          options = deepMerge defaults (jsOr config (VObj [])) False
      in andThen (asString url_v) (\<lambda>u0.
         andThen (transformBody E options (initialData data_arg options)) (\<lambda>data1.
         andThen (jsonEncode E data1 (authHeader options [])) (\<lambda>(data2, custom1).
         andThen (xsrfInject E options custom1) (\<lambda>customHeaders.
         andThen (composeBaseURL options u0) (\<lambda>u1.
         andThen (composeQuery E options u1) (\<lambda>u2.
         andThen (fetchFunc E options) (\<lambda>f.
         andThen (buildRequest options method_arg u2 data2 customHeaders) (\<lambda>req.
           Inr (f, req, options, config))))))))))"

text \<open>
  The instance function \<open>redaxios\<close> of \<open>create(defaults)\<close>, with \<open>defaults\<close> the instance
  defaults.  The second component lists the calls of the transport.
\<close>

definition redaxios ::
  "env \<Rightarrow> jsval \<Rightarrow> jsval \<Rightarrow> jsval \<Rightarrow> jsval \<Rightarrow> jsval \<Rightarrow> outcome \<times> request list" where
  "redaxios E defaults urlOrConfig config0 method_arg data_arg =
     (case prepare E defaults urlOrConfig config0 method_arg data_arg of
        Inl out \<Rightarrow> (out, [])
      | Inr (f, req, options, config) \<Rightarrow>
          (case transport E f req of
             FetchThrows e \<Rightarrow> (Throws e, [req])
           | FetchPending \<Rightarrow> (Pending, [req])
           | FetchRejects e \<Rightarrow> (Rejects e, [req])
           | FetchFulfils res \<Rightarrow> (handleResponse E options config res, [req])))"

text \<open>Line 79 and lines 180-192: \<open>create\<close> and the convenience methods.\<close>

definition create :: "env \<Rightarrow> jsval \<Rightarrow> jsval \<Rightarrow> jsval \<Rightarrow> jsval \<Rightarrow> jsval \<Rightarrow> outcome \<times> request list" where
  "create E defaults = redaxios E (jsOr defaults (VObj []))"

definition get :: "env \<Rightarrow> jsval \<Rightarrow> string \<Rightarrow> jsval \<Rightarrow> outcome \<times> request list" where
  "get E defaults u config = redaxios E defaults (VStr u) config (VStr ''get'') VUndefined"

definition post :: "env \<Rightarrow> jsval \<Rightarrow> string \<Rightarrow> jsval \<Rightarrow> jsval \<Rightarrow> outcome \<times> request list" where
  "post E defaults u data config = redaxios E defaults (VStr u) config (VStr ''post'') data"

section \<open>A sample environment\<close>

text \<open>
  A concrete environment, on which the examples are evaluated.  Its parts are small
  models of the platform functions, as far as the examples use them.
\<close>

definition string_of_int :: "int \<Rightarrow> string" where
  "string_of_int i = (if i < 0 then CHR ''-'' # string_of_nat (nat (- i)) else string_of_nat (nat i))"

definition bigIntError :: jsval where
  "bigIntError = VObj [(''name'', VStr ''TypeError''),
                       (''message'', VStr ''Do not know how to serialize a BigInt'')]"

definition quoteJson :: "string \<Rightarrow> string" where
  "quoteJson s =
     CHR 0x22 # concat (map (\<lambda>c. if c = CHR 0x22 \<or> c = CHR 0x5C then [CHR 0x5C, c] else [c]) s)
       @ [CHR 0x22]"

fun joinWith :: "string \<Rightarrow> string list \<Rightarrow> string" where
  "joinWith sep [] = []"
| "joinWith sep [x] = x"
| "joinWith sep (x # y # ys) = x @ sep @ joinWith sep (y # ys)"

text \<open>
  \<open>JSON.stringify\<close> on a value without \<open>toJSON\<close> methods: \<open>Inr None\<close> is the result
  \<open>undefined\<close>.  A \<open>bigint\<close> anywhere in the value makes it throw a \<open>TypeError\<close>.  In an
  array, \<open>undefined\<close> and functions become \<open>null\<close>; in an object their entries are left
  out.  Strings are taken to hold no control characters.
\<close>

fun jsonText :: "jsval \<Rightarrow> jsval + string option"
  and jsonItems :: "jsval list \<Rightarrow> jsval + string list"
  and jsonMembers :: "(string \<times> jsval) list \<Rightarrow> jsval + string list" where
  "jsonText VUndefined = Inr None"
| "jsonText (VFun n) = Inr None"
| "jsonText VNull = Inr (Some ''null'')"
| "jsonText (VBool b) = Inr (Some (if b then ''true'' else ''false''))"
| "jsonText (VNum n) = Inr (Some (string_of_int n))"
| "jsonText (VBigInt n) = Inl bigIntError"
| "jsonText (VStr s) = Inr (Some (quoteJson s))"
| "jsonText (VArr xs) =
     (case jsonItems xs of
        Inl e \<Rightarrow> Inl e
      | Inr ts \<Rightarrow> Inr (Some (''['' @ joinWith '','' ts @ '']'')))"
| "jsonText (VObj kvs) =
     (case jsonMembers kvs of
        Inl e \<Rightarrow> Inl e
      | Inr ts \<Rightarrow> Inr (Some (''{'' @ joinWith '','' ts @ ''}'')))"
| "jsonItems [] = Inr []"
| "jsonItems (x # xs) =
     (case jsonText x of
        Inl e \<Rightarrow> Inl e
      | Inr t \<Rightarrow>
          (case jsonItems xs of
             Inl e \<Rightarrow> Inl e
           | Inr ts \<Rightarrow> Inr ((case t of None \<Rightarrow> ''null'' | Some s \<Rightarrow> s) # ts)))"
| "jsonMembers [] = Inr []"
| "jsonMembers ((k, v) # kvs) =
     (case jsonText v of
        Inl e \<Rightarrow> Inl e
      | Inr t \<Rightarrow>
          (case jsonMembers kvs of
             Inl e \<Rightarrow> Inl e
           | Inr ts \<Rightarrow>
               Inr (case t of None \<Rightarrow> ts | Some s \<Rightarrow> (quoteJson k @ '':'' @ s) # ts)))"

definition sampleStringify :: "jsval \<Rightarrow> jsval + jsval" where
  "sampleStringify v =
     (case jsonText v of
        Inl e \<Rightarrow> Inl e
      | Inr None \<Rightarrow> Inr VUndefined
      | Inr (Some s) \<Rightarrow> Inr (VStr s))"

text \<open>
  \<open>new URLSearchParams(p).toString()\<close> for a record \<open>p\<close> of strings, numbers and
  booleans: the form-urlencoded pairs, joined by \<open>&\<close>.
\<close>

definition hexDigit :: "nat \<Rightarrow> char" where
  "hexDigit n = (if n < 10 then char_of (48 + n) else char_of (55 + n))"

definition formEncodeChar :: "char \<Rightarrow> string" where
  "formEncodeChar c =
     (let n = (of_char c :: nat)
      in if (48 \<le> n \<and> n \<le> 57) \<or> (65 \<le> n \<and> n \<le> 90) \<or> (97 \<le> n \<and> n \<le> 122)
            \<or> c = CHR ''*'' \<or> c = CHR ''-'' \<or> c = CHR ''.'' \<or> c = CHR ''_''
         then [c]
         else if c = CHR '' '' then ''+''
         else [CHR ''%'', hexDigit (n div 16), hexDigit (n mod 16)])"

definition formEncode :: "string \<Rightarrow> string" where
  "formEncode s = concat (map formEncodeChar s)"

fun primitiveText :: "jsval \<Rightarrow> string" where
  "primitiveText (VStr s) = s"
| "primitiveText (VNum n) = string_of_int n"
| "primitiveText (VBigInt n) = string_of_int n"
| "primitiveText (VBool b) = (if b then ''true'' else ''false'')"
| "primitiveText VNull = ''null''"
| "primitiveText VUndefined = ''undefined''"
| "primitiveText _ = ''[object Object]''"

definition sampleSearchParams :: "jsval \<Rightarrow> jsval + string" where
  "sampleSearchParams p =
     Inr (joinWith ''&''
            (map (\<lambda>(k, v). formEncode k @ ''='' @ formEncode (primitiveText v)) (forIn p)))"

text \<open>
  The sample callbacks: \<open>VFun 1\<close> is \<open>(s) => s < 500\<close>, \<open>VFun 2\<close> is \<open>(p) => 'custom=1'\<close>,
  \<open>VFun 3\<close> is \<open>(body) => 'wrapped'\<close>; every other function returns \<open>undefined\<close>.
\<close>

definition sampleCall :: "nat \<Rightarrow> jsval list \<Rightarrow> jsval + jsval" where
  "sampleCall n args =
     (if n = 1 then (case args of [VNum s] \<Rightarrow> Inr (VBool (s < 500)) | _ \<Rightarrow> Inr (VBool False))
      else if n = 2 then Inr (VStr ''custom=1'')
      else if n = 3 then Inr (VStr ''wrapped'')
      else Inr VUndefined)"

text \<open>
  The sample transport \<open>VFun n\<close> answers every request with status \<open>n\<close> and the text
  \<open>pong\<close>, on which \<open>JSON.parse\<close> throws.
\<close>

definition stubResponse :: "nat \<Rightarrow> rawResponse" where
  "stubResponse n =
     \<lparr> rawProps = [(''status'', VNum (int n)), (''ok'', VBool (200 \<le> n \<and> n \<le> 299)),
                   (''body'', VNull), (''text'', VFun 0)],
       decode = (\<lambda>name. if name = ''text'' then DecodeFulfils (VStr ''pong'') else NotCallable) \<rparr>"

text \<open>
  A \<open>Headers\<close> object, which the type \<open>RequestHeaders\<close> admits as \<open>headers\<close>.  Its entries
  are held in an internal slot, out of reach of \<open>for-in\<close> and of property reads; what
  \<open>for (i in h)\<close> visits are the methods of \<open>Headers.prototype\<close>, which are enumerable.
\<close>

definition headersMethods :: props where
  "headersMethods =
     [(''append'', VFun 101), (''delete'', VFun 102), (''get'', VFun 103),
      (''getSetCookie'', VFun 104), (''has'', VFun 105), (''set'', VFun 106),
      (''entries'', VFun 107), (''forEach'', VFun 108), (''keys'', VFun 109),
      (''values'', VFun 110)]"

definition headersInstance :: "(string \<times> string) list \<Rightarrow> jsval" where
  "headersInstance entries = VObj headersMethods"

definition sampleEnv :: env where
  "sampleEnv =
     \<lparr> callFn = sampleCall,
       transport = (\<lambda>n req. FetchFulfils (stubResponse n)),
       ambientFetch = Some 200,
       jsonStringify = sampleStringify,
       jsonParse = (\<lambda>d. None),
       hasDocument = False,
       cookieToken = (\<lambda>name. Inr None),
       urlSearchParams = sampleSearchParams \<rparr>"

section \<open>Properties of deepMerge\<close>

lemma deepMerge_object:
  "deepMerge (VObj A) ov lc = VObj (fold (overrideStep lc) (forIn ov) (fold (copyStep lc) A []))"
  by (simp add: deepMerge.simps [of "VObj A"] overrideStep_def copyStep_def keyFor_def)

lemma deepMerge_array: "deepMerge (VArr xs) ov lc = VArr (xs @ concatArg ov)"
  by (simp add: deepMerge.simps [of "VArr xs"])

lemma copyStep_apply: "copyStep lc (i, v) out = AList.update (keyFor lc i) v out"
  by (simp add: copyStep_def)

lemma foldKey_apply: "foldKey lc (i, v) = (keyFor lc i, v)"
  by (simp add: foldKey_def)

lemma keyFor_False: "keyFor False i = i"
  by (simp add: keyFor_def)

lemma lowerChar_idem: "lowerChar (lowerChar c) = lowerChar c"
  by (simp add: lowerChar_def isUpperCase_def Let_def)

lemma toLowerCase_idem: "toLowerCase (toLowerCase s) = toLowerCase s"
  by (simp add: toLowerCase_def lowerChar_idem)

lemma toLowerCase_no_upper: "c \<in> set (toLowerCase s) \<Longrightarrow> \<not> isUpperCase c"
  by (auto simp: toLowerCase_def lowerChar_def isUpperCase_def Let_def)

lemma keys_of_map: "fst ` set al = dom (map_of al)"
  by (simp add: dom_map_of_conv_image_fst)

lemma hasKey_map_of: "hasKey k out = (map_of out k \<noteq> None)"
  by (simp add: hasKey_def map_of_eq_None_iff)


lemma update_fresh: "k \<notin> fst ` set al \<Longrightarrow> AList.update k v al = al @ [(k, v)]"
  by (induction al) auto

subsection \<open>The loops on objects with distinct keys, without case folding\<close>

lemma copy_loop_fresh:
  "distinct (map fst (out @ xs)) \<Longrightarrow> fold (copyStep False) xs out = out @ xs"
proof (induction xs arbitrary: out)
  case Nil
  then show ?case by simp
next
  case (Cons x xs)
  obtain k v where x: "x = (k, v)" by (cases x)
  from Cons.prems x have fresh: "k \<notin> fst ` set out" by auto
  from Cons.prems x have "distinct (map fst ((out @ [(k, v)]) @ xs))" by auto
  from Cons.IH [OF this] show ?case
    using x fresh by (simp add: update_fresh copyStep_apply keyFor_False)
qed

lemma copy_loop_object: "distinct (map fst A) \<Longrightarrow> fold (copyStep False) A [] = A"
  using copy_loop_fresh [of "[]" A] by simp

lemma override_loop_fresh:
  "distinct (map fst (out @ xs)) \<Longrightarrow> fold (overrideStep False) xs out = out @ xs"
proof (induction xs arbitrary: out)
  case Nil
  then show ?case by simp
next
  case (Cons x xs)
  obtain k v where x: "x = (k, v)" by (cases x)
  from Cons.prems x have fresh: "k \<notin> fst ` set out" by auto
  from Cons.prems x have "distinct (map fst ((out @ [(k, v)]) @ xs))" by auto
  from Cons.IH [OF this] show ?case
    using x fresh by (simp add: overrideStep_def hasKey_def update_fresh keyFor_False)
qed

lemma overrideStep_other:
  "k \<noteq> i \<Longrightarrow> map_of (overrideStep False (i, v) out) k = map_of out k"
  by (simp add: overrideStep_def Let_def update_conv' keyFor_False)

lemma overrideStep_at:
  "map_of (overrideStep False (k, v) out) k =
     Some (if hasKey k out \<and> isPlainObject v
           then deepMerge (getOwn out k) v (k = ''headers'') else v)"
  by (simp add: overrideStep_def Let_def update_conv' keyFor_False)

lemma override_loop_other:
  "k \<notin> fst ` set xs \<Longrightarrow> map_of (fold (overrideStep False) xs out) k = map_of out k"
proof (induction xs arbitrary: out)
  case Nil
  then show ?case by simp
next
  case (Cons x xs)
  obtain i v where x: "x = (i, v)" by (cases x)
  with Cons.prems have "k \<noteq> i" and "k \<notin> fst ` set xs" by auto
  then show ?case using Cons.IH x by (simp add: overrideStep_other)
qed

lemma override_loop_at:
  "distinct (map fst xs) \<Longrightarrow> (k, v) \<in> set xs \<Longrightarrow>
   map_of (fold (overrideStep False) xs out) k =
     Some (if hasKey k out \<and> isPlainObject v
           then deepMerge (getOwn out k) v (k = ''headers'') else v)"
proof (induction xs arbitrary: out)
  case Nil
  then show ?case by simp
next
  case (Cons x xs)
  obtain i w where x: "x = (i, w)" by (cases x)
  show ?case
  proof (cases "i = k")
    case True
    with Cons.prems x have "w = v" and "k \<notin> fst ` set xs" by (auto simp: image_iff)
    then show ?thesis using x True
      by (simp add: override_loop_other overrideStep_at)
  next
    case False
    with Cons.prems x have mem: "(k, v) \<in> set xs" and d: "distinct (map fst xs)" by auto
    have same: "map_of (overrideStep False (i, w) out) k = map_of out k"
      using False by (simp add: overrideStep_other)
    then have "hasKey k (overrideStep False (i, w) out) = hasKey k out"
      and "getOwn (overrideStep False (i, w) out) k = getOwn out k"
      by (simp_all add: hasKey_map_of getOwn_def)
    with Cons.IH [OF d mem, of "overrideStep False (i, w) out"] x show ?thesis by simp
  qed
qed

lemma merge_entry:
  assumes "distinct (map fst A)" and "distinct (map fst B)" and "(k, v) \<in> set B"
  shows "getProp (deepMerge (VObj A) (VObj B) False) k =
     (if hasKey k A \<and> isPlainObject v then deepMerge (getOwn A k) v (k = ''headers'') else v)"
  using assms
  by (simp add: deepMerge_object copy_loop_object getOwn_def override_loop_at)

lemma merge_disjoint:
  assumes "distinct (map fst A)" and "distinct (map fst B)"
    and "fst ` set A \<inter> fst ` set B = {}"
  shows "deepMerge (VObj A) (VObj B) False = VObj (A @ B)"
proof -
  have "distinct (map fst (A @ B))" using assms by auto
  then show ?thesis using assms(1)
    by (simp add: deepMerge_object override_loop_fresh copy_loop_object)
qed

subsection \<open>The loops with any keys\<close>

lemma copy_loop_map:
  "map_of (fold (copyStep lc) xs out) = map_of out ++ map_of (rev (map (foldKey lc) xs))"
proof (induction xs arbitrary: out)
  case Nil
  then show ?case by simp
next
  case (Cons x xs)
  obtain i v where x: "x = (i, v)" by (cases x)
  have "map_of (fold (copyStep lc) (x # xs) out) =
      (map_of out)(keyFor lc i \<mapsto> v) ++ map_of (rev (map (foldKey lc) xs))"
    unfolding x by (simp only: fold_simps copyStep_apply Cons.IH update_conv')
  also have "\<dots> = map_of out ++ map_of (rev (map (foldKey lc) (x # xs)))"
    by (simp add: x foldKey_apply map_add_upd_left)
  finally show ?case .
qed

lemma copy_loop_distinct_keys:
  "distinct (map fst out) \<Longrightarrow> distinct (map fst (fold (copyStep lc) xs out))"
proof (induction xs arbitrary: out)
  case Nil
  then show ?case by simp
next
  case (Cons x xs)
  obtain i v where x: "x = (i, v)" by (cases x)
  have "distinct (map fst (copyStep lc x out))"
    using Cons.prems x by (simp add: copyStep_apply distinct_update)
  then show ?case using Cons.IH by simp
qed

lemma override_loop_plain_free:
  "\<forall>v \<in> snd ` set xs. \<not> isPlainObject v \<Longrightarrow>
   fold (overrideStep lc) xs out = fold (copyStep lc) xs out"
proof (induction xs arbitrary: out)
  case Nil
  then show ?case by simp
next
  case (Cons x xs)
  obtain i v where x: "x = (i, v)" by (cases x)
  with Cons.prems have "\<not> isPlainObject v" and "\<forall>v \<in> snd ` set xs. \<not> isPlainObject v"
    by auto
  then show ?case using Cons.IH x by (simp add: overrideStep_def copyStep_def Let_def)
qed

lemma folded_keys: "dom (map_of (rev (map (foldKey True) xs))) = toLowerCase ` fst ` set xs"
  by (force simp: dom_map_of_conv_image_fst foldKey_def keyFor_def image_iff)

lemma map_of_rev_last:
  assumes "(i, v) \<in> set xs"
    and "\<forall>(j, w) \<in> set xs. toLowerCase j = toLowerCase i \<longrightarrow> w = v"
  shows "map_of (rev (map (foldKey True) xs)) (toLowerCase i) = Some v"
proof -
  let ?m = "map_of (rev (map (foldKey True) xs))"
  have "toLowerCase i \<in> dom ?m"
    unfolding folded_keys using assms(1) by force
  then obtain w where w: "?m (toLowerCase i) = Some w" by auto
  then have "(toLowerCase i, w) \<in> set (rev (map (foldKey True) xs))"
    by (rule map_of_SomeD)
  then obtain j where "(j, w) \<in> set xs" and "toLowerCase j = toLowerCase i"
    by (auto simp: foldKey_def keyFor_def)
  with assms(2) have "w = v" by auto
  with w show ?thesis by simp
qed

section \<open>Properties of the pipeline\<close>

lemma andThen_eq_Inr: "andThen r f = Inr y \<longleftrightarrow> (\<exists>x. r = Inr x \<and> f x = Inr y)"
  by (cases r) (simp_all add: andThen_def)

lemma asString_eq_Inr: "asString v = Inr s \<longleftrightarrow> v = VStr s"
  by (cases v) (simp_all add: asString_def)

lemma prepare_Inr:
  assumes "prepare E defaults a c m d = Inr (f, req, options, config)"
  shows "\<exists>u0 data1 data2 custom1 customHeaders u1 u2.
      normalizeArgs a c = (VStr u0, config)
    \<and> options = deepMerge defaults (jsOr config (VObj [])) False
    \<and> transformBody E options (initialData d options) = Inr data1
    \<and> jsonEncode E data1 (authHeader options []) = Inr (data2, custom1)
    \<and> xsrfInject E options custom1 = Inr customHeaders
    \<and> composeBaseURL options u0 = Inr u1
    \<and> composeQuery E options u1 = Inr u2
    \<and> fetchFunc E options = Inr f
    \<and> buildRequest options m u2 data2 customHeaders = Inr req"
proof -
  obtain url_v config' where n: "normalizeArgs a c = (url_v, config')"
    by (cases "normalizeArgs a c")
  from assms show ?thesis
    unfolding prepare_def n Let_def
    by (auto simp: andThen_eq_Inr asString_eq_Inr)
qed

lemma buildRequest_fields:
  "buildRequest options m u data custom = Inr req \<Longrightarrow> url req = u \<and> body req = data"
  by (auto simp: buildRequest_def andThen_eq_Inr)

lemma buildRequest_headers:
  "buildRequest options m u data custom = Inr req \<Longrightarrow>
   headers req = deepMerge (jsOr (getProp options ''headers'') (VObj [])) (VObj custom) True"
  by (auto simp: buildRequest_def andThen_eq_Inr)







section \<open>The claims\<close>

subsection \<open>C1: arrays on both sides of a merge\<close>

text \<open>
  C1 says that a key holding an array in both configurations is merged to the
  concatenation of the two arrays.  It is not: line 232 sends every array of the
  override to the replacement branch, so the call \<open>deepMerge(out[key], value)\<close> that
  would reach the \<open>concat\<close> of line 218 is not made.  With
  \<open>{transformRequest: [f1]}\<close> and \<open>{transformRequest: [f2]}\<close> the merged chain is \<open>[f2]\<close>.
\<close>

theorem merge_arrays_counterexample:
  "getProp (deepMerge (VObj [(''transformRequest'', VArr [VFun 1])])
                      (VObj [(''transformRequest'', VArr [VFun 2])]) False)
     ''transformRequest'' = VArr [VFun 2]
   \<and> VArr [VFun 2] \<noteq> VArr ([VFun 1] @ [VFun 2])"
  by code_simp

text \<open>
  C1 as amended: in the merge of two configurations in which a key holds an array in
  both, the merged configuration maps the key to the array of the override alone.
\<close>

theorem merge_arrays_replace:
  assumes "distinct (map fst A)" and "distinct (map fst B)"
    and "(k, VArr xs) \<in> set A" and "(k, VArr ys) \<in> set B"
  shows "getProp (deepMerge (VObj A) (VObj B) False) k = VArr ys"
  using assms by (simp add: merge_entry)

theorem merge_arrays_replace_witness:
  "distinct (map fst [(''transformRequest'', VArr [VFun 1])])
   \<and> distinct (map fst [(''transformRequest'', VArr [VFun 2]), (''url'', VStr ''/a'')])
   \<and> (''transformRequest'', VArr [VFun 1]) \<in> set [(''transformRequest'', VArr [VFun 1])]
   \<and> (''transformRequest'', VArr [VFun 2])
        \<in> set [(''transformRequest'', VArr [VFun 2]), (''url'', VStr ''/a'')]
   \<and> getProp (deepMerge (VObj [(''transformRequest'', VArr [VFun 1])])
                 (VObj [(''transformRequest'', VArr [VFun 2]), (''url'', VStr ''/a'')]) False)
        ''transformRequest'' = VArr [VFun 2]"
  using merge_arrays_replace [of "[(''transformRequest'', VArr [VFun 1])]"
      "[(''transformRequest'', VArr [VFun 2]), (''url'', VStr ''/a'')]"
      "''transformRequest''" "[VFun 1]" "[VFun 2]"]
  by simp

subsection \<open>C2: a body that JSON.stringify rejects\<close>

text \<open>
  C2 says that a throwing \<open>JSON.stringify\<close> makes the call return a rejected promise.
  The instance function is an ordinary function, not an \<open>async\<close> one, and line 113 is
  outside any \<open>try\<close>: the exception leaves the call itself, before line 140 builds the
  promise.  Posting \<open>{n: 10n}\<close> throws the \<open>TypeError\<close> of \<open>JSON.stringify\<close>; no promise
  is returned and the transport is not called.
\<close>

theorem json_failure_counterexample:
  "needsJson (VObj [(''n'', VBigInt 10)])
   \<and> jsonStringify sampleEnv (VObj [(''n'', VBigInt 10)]) = Inl bigIntError
   \<and> post sampleEnv (VObj []) ''/x'' (VObj [(''n'', VBigInt 10)]) VUndefined
       = (Throws bigIntError, [])
   \<and> Throws bigIntError \<noteq> Rejects bigIntError"
  by code_simp

text \<open>
  C2 as amended: for every call whose body reaches the JSON step (line 112 holds for the
  body left by the transform chain), if \<open>JSON.stringify\<close> of that body throws \<open>e\<close>, the
  call throws \<open>e\<close> synchronously, it returns no promise, and the transport is never invoked
  for that call.
\<close>

theorem json_failure_throws:
  assumes "normalizeArgs a c = (VStr u0, config)"
    and "transformBody E (deepMerge defaults (jsOr config (VObj [])) False)
           (initialData d (deepMerge defaults (jsOr config (VObj [])) False)) = Inr data1"
    and "needsJson data1"
    and "jsonStringify E data1 = Inl e"
  shows "redaxios E defaults a c m d = (Throws e, [])"
  using assms
  by (simp add: redaxios_def prepare_def andThen_def asString_def jsonEncode_def)

theorem json_failure_throws_witness:
  "needsJson (VObj [(''n'', VBigInt 10)])
   \<and> jsonStringify sampleEnv (VObj [(''n'', VBigInt 10)]) = Inl bigIntError
   \<and> redaxios sampleEnv (VObj []) (VStr ''/x'') VUndefined (VStr ''post'')
        (VObj [(''n'', VBigInt 10)]) = (Throws bigIntError, [])"
proof -
  have h1: "normalizeArgs (VStr ''/x'') VUndefined = (VStr ''/x'', VUndefined)"
    by code_simp
  have h2: "transformBody sampleEnv (deepMerge (VObj []) (jsOr VUndefined (VObj [])) False)
      (initialData (VObj [(''n'', VBigInt 10)])
         (deepMerge (VObj []) (jsOr VUndefined (VObj [])) False))
      = Inr (VObj [(''n'', VBigInt 10)])"
    by code_simp
  have h3: "needsJson (VObj [(''n'', VBigInt 10)])" by code_simp
  have h4: "jsonStringify sampleEnv (VObj [(''n'', VBigInt 10)]) = Inl bigIntError"
    by code_simp
  from json_failure_throws [OF h1 h2 h3 h4, of "VStr ''post''"] h3 h4
  show ?thesis by simp
qed

subsection \<open>C3: where the request body comes from\<close>

text \<open>
  C3 says that an explicit body argument is used whenever it is supplied, falsy values
  included.  Line 102 is \<open>data = data || options.data\<close>: an explicit body that is falsy
  (the empty string, \<open>0\<close>, \<open>false\<close>) gives way to the \<open>data\<close> field of the resolved
  configuration.  With instance defaults \<open>{data: 'x'}\<close>, posting \<open>''\<close>, \<open>0\<close> or \<open>false\<close>
  sends the body \<open>'x'\<close>.
\<close>

theorem body_falsy_counterexample:
  "map body (snd (post sampleEnv (VObj [(''data'', VStr ''x'')]) ''/x'' (VStr []) VUndefined))
     = [VStr ''x'']
   \<and> map body (snd (post sampleEnv (VObj [(''data'', VStr ''x'')]) ''/x'' (VNum 0) VUndefined))
     = [VStr ''x'']
   \<and> map body (snd (post sampleEnv (VObj [(''data'', VStr ''x'')]) ''/x'' (VBool False) VUndefined))
     = [VStr ''x'']"
  by code_simp

text \<open>
  C3 as amended: for every call that reaches the transport, the body that enters the
  pipeline (the input of the transform chain) is the explicit body argument whenever
  that argument is truthy, and the \<open>data\<close> field of the resolved configuration otherwise;
  the body sent is what the transform chain leaves of it, JSON-encoded when line 112
  holds.
\<close>

theorem body_source:
  assumes "prepare E defaults a c m d = Inr (f, req, options, config)"
  shows "\<exists>data1. transformBody E options (if truthy d then d else getProp options ''data'') = Inr data1
     \<and> (if needsJson data1 then jsonStringify E data1 = Inr (body req) else body req = data1)"
proof -
  from prepare_Inr [OF assms] obtain u0 data1 data2 custom1 customHeaders u1 u2 where
    t: "transformBody E options (initialData d options) = Inr data1"
    and j: "jsonEncode E data1 (authHeader options []) = Inr (data2, custom1)"
    and b: "buildRequest options m u2 data2 customHeaders = Inr req"
    by blast
  from b have "body req = data2" by (simp add: buildRequest_fields)
  with j have "if needsJson data1 then jsonStringify E data1 = Inr (body req) else body req = data1"
    by (auto simp: jsonEncode_def split: if_splits sum.splits)
  with t show ?thesis by (auto simp: initialData_def jsOr_def)
qed

theorem body_source_witness:
  "prepare sampleEnv (VObj [(''data'', VStr ''x'')]) (VStr ''/x'') VUndefined (VStr ''post'')
       (VStr ''hello'')
     = Inr (200, \<lparr>url = ''/x'', httpMethod = ''POST'', body = VStr ''hello'', headers = VObj [],
                   credentials = VUndefined\<rparr>, VObj [(''data'', VStr ''x'')], VUndefined)
   \<and> (\<exists>data1. transformBody sampleEnv (VObj [(''data'', VStr ''x'')])
          (if truthy (VStr ''hello'') then VStr ''hello''
           else getProp (VObj [(''data'', VStr ''x'')]) ''data'') = Inr data1
        \<and> (if needsJson data1
            then jsonStringify sampleEnv data1
                 = Inr (body \<lparr>url = ''/x'', httpMethod = ''POST'', body = VStr ''hello'',
                          headers = VObj [], credentials = VUndefined\<rparr>)
            else body \<lparr>url = ''/x'', httpMethod = ''POST'', body = VStr ''hello'',
                   headers = VObj [], credentials = VUndefined\<rparr> = data1))"
proof -
  have p: "prepare sampleEnv (VObj [(''data'', VStr ''x'')]) (VStr ''/x'') VUndefined (VStr ''post'')
       (VStr ''hello'')
     = Inr (200, \<lparr>url = ''/x'', httpMethod = ''POST'', body = VStr ''hello'', headers = VObj [],
                   credentials = VUndefined\<rparr>, VObj [(''data'', VStr ''x'')], VUndefined)"
    by code_simp
  from p body_source [OF p] show ?thesis by (rule conjI)
qed

subsection \<open>C4: the recursive merge and the lower-case flag\<close>




subsection \<open>C5: the finalized headers\<close>

text \<open>
  C5 speaks of every caller headers mapping.  The headers handed to the transport are
  \<open>deepMerge(options.headers || {}, customHeaders, true)\<close> (line 143), and the copy loop
  of \<open>deepMerge\<close> walks the caller's headers with \<open>for-in\<close>.  On a \<open>Headers\<close> object, which
  the type \<open>RequestHeaders\<close> admits, that loop visits the methods of the object and none
  of its entries: a call with \<open>headers: new Headers({'X-A': '1'})\<close> hands the transport
  headers that have no entry \<open>x-a\<close> and have the folded method names, such as
  \<open>getsetcookie\<close>, instead.
\<close>

theorem headers_instance_lost:
  "map (\<lambda>r. getProp (headers r) ''x-a'')
       (snd (get sampleEnv (VObj []) ''/x''
               (VObj [(''headers'', headersInstance [(''X-A'', ''1'')])])))
     = [VUndefined]
   \<and> map (\<lambda>r. getProp (headers r) ''getsetcookie'')
       (snd (get sampleEnv (VObj []) ''/x''
               (VObj [(''headers'', headersInstance [(''X-A'', ''1'')])])))
     = [VFun 104]"
  by code_simp

text \<open>
  The finalized headers of every call that reaches the transport are that merge, of the
  resolved \<open>headers\<close> (or \<open>{}\<close>) with the headers computed by lines 108-126.
\<close>

theorem finalized_headers_merge:
  assumes "prepare E defaults a c m d = Inr (f, req, options, config)"
  shows "\<exists>data1 data2 custom1 customHeaders.
      jsonEncode E data1 (authHeader options []) = Inr (data2, custom1)
    \<and> xsrfInject E options custom1 = Inr customHeaders
    \<and> headers req =
        deepMerge (jsOr (getProp options ''headers'') (VObj [])) (VObj customHeaders) True"
proof -
  from prepare_Inr [OF assms] obtain data1 data2 custom1 customHeaders u2 where
    "jsonEncode E data1 (authHeader options []) = Inr (data2, custom1)"
    and "xsrfInject E options custom1 = Inr customHeaders"
    and "buildRequest options m u2 data2 customHeaders = Inr req"
    by blast
  then show ?thesis by (blast dest: buildRequest_headers)
qed

text \<open>
  Where the caller's headers are a plain object \<open>hs\<close>, the computed headers \<open>cs\<close> hold
  no plain object (they are strings), and no name of either folds to \<open>__proto__\<close> (on
  which \<open>out[key] = v\<close> adds no entry in the code), the merge does what C5 says: its keys
  are pairwise different and in lower case, one for each name of \<open>hs\<close> or \<open>cs\<close> compared
  case-insensitively, and a name of \<open>cs\<close> carries the value that \<open>cs\<close> gives it,
  whatever \<open>hs\<close> holds under any spelling of that name.
\<close>

theorem headers_folded:
  assumes "\<forall>v \<in> snd ` set cs. \<not> isPlainObject v"
    and "\<forall>i \<in> fst ` set hs \<union> fst ` set cs. toLowerCase i \<noteq> ''__proto__''"
  shows "\<exists>out. deepMerge (VObj hs) (VObj cs) True = VObj out
     \<and> distinct (map fst out)
     \<and> (\<forall>k \<in> fst ` set out. toLowerCase k = k \<and> (\<forall>ch \<in> set k. \<not> isUpperCase ch))
     \<and> fst ` set out = toLowerCase ` (fst ` set hs \<union> fst ` set cs)
     \<and> (\<forall>(i, v) \<in> set cs.
          (\<forall>(j, w) \<in> set cs. toLowerCase j = toLowerCase i \<longrightarrow> w = v)
          \<longrightarrow> map_of out (toLowerCase i) = Some v)"
proof -
  let ?out = "fold (copyStep True) cs (fold (copyStep True) hs [])"
  have eq: "deepMerge (VObj hs) (VObj cs) True = VObj ?out"
    using assms(1) by (simp add: deepMerge_object override_loop_plain_free)
  have d: "distinct (map fst ?out)"
    by (intro copy_loop_distinct_keys) simp
  have m: "map_of ?out =
      map_of (rev (map (foldKey True) hs)) ++ map_of (rev (map (foldKey True) cs))"
    by (simp add: copy_loop_map)
  have "fst ` set ?out = dom (map_of ?out)" by (rule keys_of_map)
  also have "\<dots> = toLowerCase ` (fst ` set hs \<union> fst ` set cs)"
    unfolding m by (auto simp: folded_keys)
  finally have keys: "fst ` set ?out = toLowerCase ` (fst ` set hs \<union> fst ` set cs)" .
  have lower: "\<forall>k \<in> fst ` set ?out. toLowerCase k = k \<and> (\<forall>ch \<in> set k. \<not> isUpperCase ch)"
    unfolding keys by (auto simp: toLowerCase_idem toLowerCase_no_upper)
  have wins: "map_of ?out (toLowerCase i) = Some v"
    if "(i, v) \<in> set cs"
      and "\<forall>(j, w) \<in> set cs. toLowerCase j = toLowerCase i \<longrightarrow> w = v" for i v
  proof -
    have "map_of (rev (map (foldKey True) cs)) (toLowerCase i) = Some v"
      using that by (rule map_of_rev_last)
    then show ?thesis unfolding m by (simp add: map_add_Some_iff)
  qed
  from eq d keys lower wins show ?thesis by blast
qed

theorem headers_folded_witness:
  "\<not> isPlainObject (VStr ''application/json'')
   \<and> toLowerCase ''Content-Type'' \<noteq> ''__proto__''
   \<and> toLowerCase ''content-type'' \<noteq> ''__proto__''
   \<and> (\<exists>out. deepMerge (VObj [(''Content-Type'', VStr ''text/plain'')])
                 (VObj [(''content-type'', VStr ''application/json'')]) True = VObj out
          \<and> distinct (map fst out)
          \<and> fst ` set out = {''content-type''}
          \<and> map_of out ''content-type'' = Some (VStr ''application/json''))"
proof -
  have h: "\<forall>v \<in> snd ` set [(''content-type'', VStr ''application/json'')]. \<not> isPlainObject v"
    by simp
  have lc: "toLowerCase ''Content-Type'' = ''content-type''"
    "toLowerCase ''content-type'' = ''content-type''"
    by code_simp+
  have g: "\<forall>i \<in> fst ` set [(''Content-Type'', VStr ''text/plain'')]
      \<union> fst ` set [(''content-type'', VStr ''application/json'')]. toLowerCase i \<noteq> ''__proto__''"
    by (simp add: lc)
  from headers_folded [OF h g]
  obtain out where
    "deepMerge (VObj [(''Content-Type'', VStr ''text/plain'')])
       (VObj [(''content-type'', VStr ''application/json'')]) True = VObj out"
    and "distinct (map fst out)"
    and "fst ` set out = toLowerCase ` (fst ` set [(''Content-Type'', VStr ''text/plain'')]
           \<union> fst ` set [(''content-type'', VStr ''application/json'')])"
    and "map_of out (toLowerCase ''content-type'') = Some (VStr ''application/json'')"
    by auto
  then show ?thesis by (simp add: lc)
qed

subsection \<open>C6: resolving and rejecting\<close>

text \<open>
  C6 says that every completed exchange resolves or rejects by the success predicate.
  With \<open>responseType: 'stream'\<close> the callback returns at line 154, before the predicate of
  line 172 is looked at: a raw status 404 with \<open>ok\<close> false resolves.
\<close>

theorem stream_counterexample:
  "statusOk sampleEnv (VObj [(''responseType'', VStr ''stream''), (''fetch'', VFun 404)])
      (stubResponse 404) = Inr False
   \<and> fst (redaxios sampleEnv (VObj []) (VStr ''/x'')
         (VObj [(''responseType'', VStr ''stream''), (''fetch'', VFun 404)]) (VStr ''get'') VUndefined)
     = Resolves (VObj [(''config'', VObj [(''responseType'', VStr ''stream''), (''fetch'', VFun 404)]),
          (''status'', VNum 404), (''ok'', VBool False), (''body'', VNull), (''data'', VNull)])"
  by code_simp

text \<open>
  C6 as amended: for every call whose transport promise fulfils with a raw response:
  if the resolved \<open>responseType\<close> is \<open>stream\<close>, the call resolves whatever the status;
  otherwise, when the decode method returns a promise that settles and \<open>validateStatus\<close>,
  if supplied, returns, the call resolves when the success predicate holds (the resolved
  \<open>validateStatus\<close> applied to the raw status when supplied, else the \<open>ok\<close> flag of the
  raw response) and otherwise rejects, and the rejection carries the very Response that
  would have been resolved.
\<close>

theorem settlement:
  assumes "prepare E defaults a c m d = Inr (f, req, options, config)"
    and "transport E f req = FetchFulfils res"
  shows "(getProp options ''responseType'' = VStr ''stream''
          \<longrightarrow> fst (redaxios E defaults a c m d) =
                Resolves (VObj (AList.update ''data'' (getOwn (rawProps res) ''body'')
                                  (copyRaw res [(''config'', jsOr config (VObj []))]))))
    \<and> (getProp options ''responseType'' \<noteq> VStr ''stream''
          \<and> jsOr (getProp options ''responseType'') (VStr ''text'') = VStr rt
          \<and> (decode res rt = DecodeFulfils v \<or> decode res rt = DecodeRejects r)
          \<and> statusOk E options res = Inr ok
          \<longrightarrow> fst (redaxios E defaults a c m d) =
                (let response =
                   (case decode res rt of
                      DecodeFulfils x \<Rightarrow>
                        storeData E x (copyRaw res [(''config'', jsOr config (VObj []))])
                    | _ \<Rightarrow> copyRaw res [(''config'', jsOr config (VObj []))])
                 in if ok then Resolves (VObj response) else Rejects (VObj response))
              \<and> ok = (if truthy (getProp options ''validateStatus'')
                      then \<exists>n y. getProp options ''validateStatus'' = VFun n
                             \<and> callFn E n [getOwn (rawProps res) ''status''] = Inr y \<and> truthy y
                      else truthy (getOwn (rawProps res) ''ok'')))"
proof -
  have call: "fst (redaxios E defaults a c m d) = handleResponse E options config res"
    using assms by (simp add: redaxios_def)
  have stream: "getProp options ''responseType'' = VStr ''stream''
      \<longrightarrow> fst (redaxios E defaults a c m d) =
            Resolves (VObj (AList.update ''data'' (getOwn (rawProps res) ''body'')
                              (copyRaw res [(''config'', jsOr config (VObj []))])))"
    by (simp add: call handleResponse_def Let_def)
  have settled: "fst (redaxios E defaults a c m d) =
      (let response =
         (case decode res rt of
            DecodeFulfils x \<Rightarrow> storeData E x (copyRaw res [(''config'', jsOr config (VObj []))])
          | _ \<Rightarrow> copyRaw res [(''config'', jsOr config (VObj []))])
       in if ok then Resolves (VObj response) else Rejects (VObj response))"
    if "getProp options ''responseType'' \<noteq> VStr ''stream''"
      and "jsOr (getProp options ''responseType'') (VStr ''text'') = VStr rt"
      and "decode res rt = DecodeFulfils v \<or> decode res rt = DecodeRejects r"
      and "statusOk E options res = Inr ok"
    using that by (auto simp: call handleResponse_def settle_def Let_def)
  have predicate: "ok = (if truthy (getProp options ''validateStatus'')
            then \<exists>n y. getProp options ''validateStatus'' = VFun n
                   \<and> callFn E n [getOwn (rawProps res) ''status''] = Inr y \<and> truthy y
            else truthy (getOwn (rawProps res) ''ok''))"
    if "statusOk E options res = Inr ok"
    using that by (auto simp: statusOk_def split: if_splits jsval.splits sum.splits)
  from stream settled predicate show ?thesis by blast
qed

theorem settlement_witness:
  "fst (redaxios sampleEnv (VObj []) (VStr ''/x'') (VObj [(''fetch'', VFun 404)])
          (VStr ''get'') VUndefined)
     = Rejects (VObj [(''config'', VObj [(''fetch'', VFun 404)]), (''status'', VNum 404),
          (''ok'', VBool False), (''body'', VNull), (''data'', VStr ''pong'')])
   \<and> fst (redaxios sampleEnv (VObj []) (VStr ''/x'')
          (VObj [(''fetch'', VFun 404), (''validateStatus'', VFun 1)]) (VStr ''get'') VUndefined)
     = Resolves (VObj [(''config'', VObj [(''fetch'', VFun 404), (''validateStatus'', VFun 1)]),
          (''status'', VNum 404), (''ok'', VBool False), (''body'', VNull),
          (''data'', VStr ''pong'')])
   \<and> fst (redaxios sampleEnv (VObj []) (VStr ''/x'')
          (VObj [(''fetch'', VFun 404), (''responseType'', VStr ''stream'')]) (VStr ''get'')
          VUndefined)
     = Resolves (VObj [(''config'', VObj [(''fetch'', VFun 404), (''responseType'', VStr ''stream'')]),
          (''status'', VNum 404), (''ok'', VBool False), (''body'', VNull), (''data'', VNull)])"
proof -
  let ?req = "\<lparr>url = ''/x'', httpMethod = ''GET'', body = VUndefined, headers = VObj [],
                credentials = VUndefined\<rparr>"
  let ?o1 = "VObj [(''fetch'', VFun 404)]"
  let ?o2 = "VObj [(''fetch'', VFun 404), (''validateStatus'', VFun 1)]"
  let ?o3 = "VObj [(''fetch'', VFun 404), (''responseType'', VStr ''stream'')]"
  have t: "transport sampleEnv 404 ?req = FetchFulfils (stubResponse 404)"
    by (simp add: sampleEnv_def)
  have d: "decode (stubResponse 404) ''text'' = DecodeFulfils (VStr ''pong'')
      \<or> decode (stubResponse 404) ''text'' = DecodeRejects VUndefined"
    by (simp add: stubResponse_def)
  have p1: "prepare sampleEnv (VObj []) (VStr ''/x'') ?o1 (VStr ''get'') VUndefined
      = Inr (404, ?req, ?o1, ?o1)"
    by code_simp
  have s1: "getProp ?o1 ''responseType'' \<noteq> VStr ''stream''" by code_simp
  have r1: "jsOr (getProp ?o1 ''responseType'') (VStr ''text'') = VStr ''text''" by code_simp
  have k1: "statusOk sampleEnv ?o1 (stubResponse 404) = Inr False" by code_simp
  have e1: "(let response =
         (case decode (stubResponse 404) ''text'' of
            DecodeFulfils x \<Rightarrow> storeData sampleEnv x (copyRaw (stubResponse 404) [(''config'', jsOr ?o1 (VObj []))])
          | _ \<Rightarrow> copyRaw (stubResponse 404) [(''config'', jsOr ?o1 (VObj []))])
       in if False then Resolves (VObj response) else Rejects (VObj response))
     = Rejects (VObj [(''config'', VObj [(''fetch'', VFun 404)]), (''status'', VNum 404),
          (''ok'', VBool False), (''body'', VNull), (''data'', VStr ''pong'')])"
    by code_simp
  have p2: "prepare sampleEnv (VObj []) (VStr ''/x'') ?o2 (VStr ''get'') VUndefined
      = Inr (404, ?req, ?o2, ?o2)"
    by code_simp
  have s2: "getProp ?o2 ''responseType'' \<noteq> VStr ''stream''" by code_simp
  have r2: "jsOr (getProp ?o2 ''responseType'') (VStr ''text'') = VStr ''text''" by code_simp
  have k2: "statusOk sampleEnv ?o2 (stubResponse 404) = Inr True" by code_simp
  have e2: "(let response =
         (case decode (stubResponse 404) ''text'' of
            DecodeFulfils x \<Rightarrow> storeData sampleEnv x (copyRaw (stubResponse 404) [(''config'', jsOr ?o2 (VObj []))])
          | _ \<Rightarrow> copyRaw (stubResponse 404) [(''config'', jsOr ?o2 (VObj []))])
       in if True then Resolves (VObj response) else Rejects (VObj response))
     = Resolves (VObj [(''config'', VObj [(''fetch'', VFun 404), (''validateStatus'', VFun 1)]),
          (''status'', VNum 404), (''ok'', VBool False), (''body'', VNull),
          (''data'', VStr ''pong'')])"
    by code_simp
  have p3: "prepare sampleEnv (VObj []) (VStr ''/x'') ?o3 (VStr ''get'') VUndefined
      = Inr (404, ?req, ?o3, ?o3)"
    by code_simp
  have s3: "getProp ?o3 ''responseType'' = VStr ''stream''" by code_simp
  have e3: "Resolves (VObj (AList.update ''data'' (getOwn (rawProps (stubResponse 404)) ''body'')
                                  (copyRaw (stubResponse 404) [(''config'', jsOr ?o3 (VObj []))])))
     = Resolves (VObj [(''config'', VObj [(''fetch'', VFun 404), (''responseType'', VStr ''stream'')]),
          (''status'', VNum 404), (''ok'', VBool False), (''body'', VNull), (''data'', VNull)])"
    by code_simp
  from settlement [OF p1 t, of "''text''" "VStr ''pong''" VUndefined False] s1 r1 d k1
  have "fst (redaxios sampleEnv (VObj []) (VStr ''/x'') ?o1 (VStr ''get'') VUndefined) =
      (let response =
         (case decode (stubResponse 404) ''text'' of
            DecodeFulfils x \<Rightarrow> storeData sampleEnv x (copyRaw (stubResponse 404) [(''config'', jsOr ?o1 (VObj []))])
          | _ \<Rightarrow> copyRaw (stubResponse 404) [(''config'', jsOr ?o1 (VObj []))])
       in if False then Resolves (VObj response) else Rejects (VObj response))"
    by blast
  with e1 have c1: "fst (redaxios sampleEnv (VObj []) (VStr ''/x'') ?o1 (VStr ''get'') VUndefined)
     = Rejects (VObj [(''config'', VObj [(''fetch'', VFun 404)]), (''status'', VNum 404),
          (''ok'', VBool False), (''body'', VNull), (''data'', VStr ''pong'')])"
    by (simp only:)
  from settlement [OF p2 t, of "''text''" "VStr ''pong''" VUndefined True] s2 r2 d k2
  have "fst (redaxios sampleEnv (VObj []) (VStr ''/x'') ?o2 (VStr ''get'') VUndefined) =
      (let response =
         (case decode (stubResponse 404) ''text'' of
            DecodeFulfils x \<Rightarrow> storeData sampleEnv x (copyRaw (stubResponse 404) [(''config'', jsOr ?o2 (VObj []))])
          | _ \<Rightarrow> copyRaw (stubResponse 404) [(''config'', jsOr ?o2 (VObj []))])
       in if True then Resolves (VObj response) else Rejects (VObj response))"
    by blast
  with e2 have c2: "fst (redaxios sampleEnv (VObj []) (VStr ''/x'') ?o2 (VStr ''get'') VUndefined)
     = Resolves (VObj [(''config'', VObj [(''fetch'', VFun 404), (''validateStatus'', VFun 1)]),
          (''status'', VNum 404), (''ok'', VBool False), (''body'', VNull),
          (''data'', VStr ''pong'')])"
    by (simp only:)
  from settlement [OF p3 t] s3
  have "fst (redaxios sampleEnv (VObj []) (VStr ''/x'') ?o3 (VStr ''get'') VUndefined) =
      Resolves (VObj (AList.update ''data'' (getOwn (rawProps (stubResponse 404)) ''body'')
                                  (copyRaw (stubResponse 404) [(''config'', jsOr ?o3 (VObj []))])))"
    by blast
  with e3 have c3: "fst (redaxios sampleEnv (VObj []) (VStr ''/x'') ?o3 (VStr ''get'') VUndefined)
     = Resolves (VObj [(''config'', VObj [(''fetch'', VFun 404), (''responseType'', VStr ''stream'')]),
          (''status'', VNum 404), (''ok'', VBool False), (''body'', VNull), (''data'', VNull)])"
    by (simp only:)
  from c1 c2 c3 show ?thesis by (intro conjI)
qed


subsection \<open>C7: the base URL\<close>





subsection \<open>C8: the query string\<close>



subsection \<open>C9: configurations with disjoint keys\<close>

text \<open>
  C9 speaks of every pair of configurations with disjoint key sets.  In the code the
  assignment \<open>out[key] = v\<close> of lines 226 and 232 adds no entry when the key is
  \<open>__proto__\<close>: for \<open>A = {}\<close> and \<open>B = JSON.parse('{"__proto__": {"a": 1}}')\<close> both merges
  are objects without an own entry, not the union.  The embedding does not represent
  that assignment (see the first section), so the property is stated for the
  configurations that have no property name of \<open>Object.prototype\<close> as a key: for these,
  \<open>merge(A, B)\<close> and \<open>merge(B, A)\<close> are objects with each key once, their entries are the
  union of the entries of \<open>A\<close> and \<open>B\<close>, and every property reads the same in both.
  (\<open>A\<close> and \<open>B\<close> are objects, so each lists a key once.)
\<close>

theorem merge_disjoint_union:
  assumes "distinct (map fst A)" and "distinct (map fst B)"
    and "fst ` set A \<inter> fst ` set B = {}"
    and "set objectPrototypeKeys \<inter> (fst ` set A \<union> fst ` set B) = {}"
  shows "set (forIn (deepMerge (VObj A) (VObj B) False)) = set A \<union> set B
     \<and> set (forIn (deepMerge (VObj B) (VObj A) False)) = set A \<union> set B
     \<and> distinct (map fst (forIn (deepMerge (VObj A) (VObj B) False)))
     \<and> distinct (map fst (forIn (deepMerge (VObj B) (VObj A) False)))
     \<and> isPlainObject (deepMerge (VObj A) (VObj B) False)
     \<and> isPlainObject (deepMerge (VObj B) (VObj A) False)
     \<and> getProp (deepMerge (VObj A) (VObj B) False) k
         = getProp (deepMerge (VObj B) (VObj A) False) k"
proof -
  have ab: "deepMerge (VObj A) (VObj B) False = VObj (A @ B)"
    using assms(1-3) by (rule merge_disjoint)
  have ba: "deepMerge (VObj B) (VObj A) False = VObj (B @ A)"
    using assms(1-3) by (intro merge_disjoint) auto
  have "dom (map_of A) \<inter> dom (map_of B) = {}"
    using assms(3) by (simp add: dom_map_of_conv_image_fst)
  then have "map_of B ++ map_of A = map_of A ++ map_of B"
    by (intro map_add_comm) auto
  then have "map_of (A @ B) = map_of (B @ A)"
    by simp
  then have "getOwn (A @ B) k = getOwn (B @ A) k"
    by (simp add: getOwn_def)
  moreover have "distinct (map fst (A @ B))" and "distinct (map fst (B @ A))"
    using assms(1-3) by auto
  ultimately show ?thesis
    unfolding ab ba by (simp add: Un_commute)
qed

theorem merge_disjoint_union_witness:
  "distinct (map fst [(''baseURL'', VStr ''/api'')])
   \<and> distinct (map fst [(''method'', VStr ''put''), (''auth'', VStr ''t'')])
   \<and> fst ` set [(''baseURL'', VStr ''/api'')]
       \<inter> fst ` set [(''method'', VStr ''put''), (''auth'', VStr ''t'')] = {}
   \<and> set objectPrototypeKeys
       \<inter> (fst ` set [(''baseURL'', VStr ''/api'')]
           \<union> fst ` set [(''method'', VStr ''put''), (''auth'', VStr ''t'')]) = {}
   \<and> set (forIn (deepMerge (VObj [(''baseURL'', VStr ''/api'')])
                    (VObj [(''method'', VStr ''put''), (''auth'', VStr ''t'')]) False))
       = {(''method'', VStr ''put''), (''auth'', VStr ''t''), (''baseURL'', VStr ''/api'')}
   \<and> set (forIn (deepMerge (VObj [(''method'', VStr ''put''), (''auth'', VStr ''t'')])
                    (VObj [(''baseURL'', VStr ''/api'')]) False))
       = {(''method'', VStr ''put''), (''auth'', VStr ''t''), (''baseURL'', VStr ''/api'')}"
proof -
  have g: "set objectPrototypeKeys
       \<inter> (fst ` set [(''baseURL'', VStr ''/api'')]
           \<union> fst ` set [(''method'', VStr ''put''), (''auth'', VStr ''t'')]) = {}"
    by (simp add: objectPrototypeKeys_def)
  from merge_disjoint_union [of "[(''baseURL'', VStr ''/api'')]"
      "[(''method'', VStr ''put''), (''auth'', VStr ''t'')]" "''auth''"] g
  show ?thesis by simp
qed

subsection \<open>C10: a configuration as first argument\<close>

text \<open>
  C10: when the first argument is not a string, the second argument is not looked at:
  the call is the call with the first argument alone, its configuration is the first
  argument, and its URL is the \<open>url\<close> field of that configuration, or the empty string
  when the field is absent (or falsy).
\<close>

theorem first_argument_config:
  assumes "\<not> isString a"
  shows "redaxios E defaults a c m d = redaxios E defaults a VUndefined m d
     \<and> normalizeArgs a c =
         (if truthy (getProp a ''url'') then getProp a ''url'' else VStr [], a)"
  using assms by (simp add: redaxios_def prepare_def normalizeArgs_def jsOr_def)

theorem first_argument_config_witness:
  "\<not> isString (VObj [(''url'', VStr ''/a'')])
   \<and> redaxios sampleEnv (VObj []) (VObj [(''url'', VStr ''/a'')])
         (VObj [(''baseURL'', VStr ''https://ignored.example'')]) VUndefined VUndefined
       = redaxios sampleEnv (VObj []) (VObj [(''url'', VStr ''/a'')]) VUndefined VUndefined VUndefined
   \<and> normalizeArgs (VObj [(''url'', VStr ''/a'')])
         (VObj [(''baseURL'', VStr ''https://ignored.example'')])
       = (VStr ''/a'', VObj [(''url'', VStr ''/a'')])
   \<and> map url (snd (redaxios sampleEnv (VObj []) (VObj [(''url'', VStr ''/a'')])
         (VObj [(''baseURL'', VStr ''https://ignored.example'')]) VUndefined VUndefined)) = [''/a'']"
proof -
  have h: "\<not> isString (VObj [(''url'', VStr ''/a'')])" by simp
  have sent: "map url (snd (redaxios sampleEnv (VObj []) (VObj [(''url'', VStr ''/a'')])
         (VObj [(''baseURL'', VStr ''https://ignored.example'')]) VUndefined VUndefined)) = [''/a'']"
    by code_simp
  from first_argument_config [OF h, of sampleEnv "VObj []"
      "VObj [(''baseURL'', VStr ''https://ignored.example'')]" VUndefined VUndefined]
  show ?thesis using sent by (simp add: getOwn_def)
qed


end
